theory Spec2Isabelle
  imports Main "HOL-Library.Sublist"
begin

section \<open>The offline-caching worker of the wedding invitation site\<close>

text \<open>
  The worker script registers handlers for the lifecycle events of its host (install,
  activate, fetch, message). Each handler is translated below, line by line, into a
  function over an explicit world: the host's cache storage and a trace of the host
  operations the worker has asked for. The network is a parameter of every handler.
\<close>

subsection \<open>Strings\<close>

text \<open>\<^verbatim>\<open>s.includes(t)\<close>: \<open>t\<close> occurs in \<open>s\<close> as a contiguous run of characters.\<close>

fun includes_str :: "string \<Rightarrow> string \<Rightarrow> bool" where
  "includes_str [] t = (t = [])"
| "includes_str (c # cs) t = (prefix t (c # cs) \<or> includes_str cs t)"

text \<open>\<^verbatim>\<open>s.startsWith(t)\<close>.\<close>

definition startsWith :: "string \<Rightarrow> string \<Rightarrow> bool" where
  "startsWith s t = prefix t s"

subsection \<open>Requests, responses and failures\<close>

datatype request_mode = Navigate | SameOrigin | Cors | NoCors

text \<open>
  A request as the worker sees it: the absolute URL, the method (upper case), the mode and
  the header list, whose names are in lower case as the host normalises them.
\<close>

record request =
  url :: string
  "method" :: string
  mode :: request_mode
  headers :: "(string \<times> string) list"

datatype response_type = Basic | CorsType | Opaque | OpaqueRedirect | ErrorType

text \<open>
  A response: status, type, body and the header list (\<open>rheaders\<close>), whose names are
  in lower case.
\<close>

record response =
  status :: nat
  rtype :: response_type
  body :: string
  rheaders :: "(string \<times> string) list"

text \<open>
  The failures a promise of the worker can be rejected with. \<open>NetworkFailure\<close> is the
  reason \<^verbatim>\<open>fetch\<close> rejects with; \<open>NullDereference\<close> is the type error of calling a
  method on \<^verbatim>\<open>null\<close> or \<^verbatim>\<open>undefined\<close>; \<open>AddAllTypeError\<close> and
  \<open>InvalidStateError\<close> are the rejections of \<^verbatim>\<open>cache.addAll\<close>, \<open>PutTypeError\<close>
  is the rejection of \<^verbatim>\<open>cache.put\<close>.
\<close>

datatype error =
    NetworkFailure string
  | NullDereference
  | AddAllTypeError
  | InvalidStateError
  | PutTypeError

text \<open>
  The network answers a request with a failure reason or with a response. The script
  tests the response of \<^verbatim>\<open>fetch\<close> for being missing (\<^verbatim>\<open>!response\<close>), so a missing
  response is \<open>None\<close>.
\<close>

type_synonym network = "request \<Rightarrow> string + response option"

subsection \<open>The world: cache storage and the trace of host operations\<close>

text \<open>
  A cache bucket holds its entries in insertion order, keyed by the URL of a GET request;
  cache storage holds the buckets by name, in creation order.
\<close>

type_synonym cache = "(string \<times> response) list"
type_synonym cache_storage = "(string \<times> cache) list"

datatype effect =
    NetFetch request
  | CacheRead string
  | CacheWrite string string
  | BucketOpen string
  | BucketDelete string
  | KeysRead
  | PostMessage nat string
  | SkipWaiting
  | ClientsClaim

text \<open>
  Work the script has started without waiting for it: opening a bucket and then putting
  a response for a request. It is outstanding until the host settles it.
\<close>

datatype deferred = OpenThenPut string request response

record world =
  storage :: cache_storage
  trace :: "effect list"
  pending :: "deferred list"

definition emit :: "effect list \<Rightarrow> world \<Rightarrow> world" where
  "emit es w = w\<lparr>trace := trace w @ es\<rparr>"

subsection \<open>Promises\<close>

text \<open>
  A promise is a computation over the world that settles either rejected (\<open>Inl\<close>) or
  resolved (\<open>Inr\<close>). \<open>then_p\<close> is \<^verbatim>\<open>.then(f)\<close>, \<open>catch_p\<close> is \<^verbatim>\<open>.catch(g)\<close>.
\<close>

type_synonym 'a promise = "world \<Rightarrow> (error + 'a) \<times> world"

definition resolve :: "'a \<Rightarrow> 'a promise" where
  "resolve x = (\<lambda>w. (Inr x, w))"

definition reject :: "error \<Rightarrow> 'a promise" where
  "reject e = (\<lambda>w. (Inl e, w))"

definition then_p :: "'a promise \<Rightarrow> ('a \<Rightarrow> 'b promise) \<Rightarrow> 'b promise" where
  "then_p p f = (\<lambda>w. case p w of (Inl e, w') \<Rightarrow> (Inl e, w') | (Inr x, w') \<Rightarrow> f x w')"

definition catch_p :: "'a promise \<Rightarrow> (error \<Rightarrow> 'a promise) \<Rightarrow> 'a promise" where
  "catch_p p g = (\<lambda>w. case p w of (Inl e, w') \<Rightarrow> g e w' | (Inr x, w') \<Rightarrow> (Inr x, w'))"

text \<open>
  A promise that is started but neither returned nor awaited, nor handed to
  \<^verbatim>\<open>event.waitUntil\<close>: the script goes on at once, and the work joins what is
  outstanding. Nothing of it has happened when the script goes on.
\<close>

definition not_awaited :: "deferred \<Rightarrow> unit promise" where
  "not_awaited d = (\<lambda>w. (Inr (), w\<lparr>pending := pending w @ [d]\<rparr>))"

text \<open>
  \<^verbatim>\<open>Promise.all\<close>: every promise of the list has been started and runs; the result is
  the list of values, or the first rejection.
\<close>

fun promise_all :: "'a promise list \<Rightarrow> 'a list promise" where
  "promise_all [] = resolve []"
| "promise_all (p # ps) = (\<lambda>w.
     case p w of (r, w') \<Rightarrow>
       (case promise_all ps w' of (rs, w'') \<Rightarrow>
          (case r of
             Inl e \<Rightarrow> (Inl e, w'')
           | Inr x \<Rightarrow> (case rs of Inl e \<Rightarrow> (Inl e, w'') | Inr xs \<Rightarrow> (Inr (x # xs), w'')))))"

subsection \<open>The host interface the worker calls\<close>

text \<open>
  \<^verbatim>\<open>new Request(u, {mode: m})\<close> in a worker served from \<open>origin\<close>: a path that starts
  with a slash is resolved against the origin, an absolute URL is kept; the method is GET
  and there are no headers.
\<close>

definition resolve_url :: "string \<Rightarrow> string \<Rightarrow> string" where
  "resolve_url origin u = (if prefix ''/'' u then origin @ u else u)"

definition new_Request :: "string \<Rightarrow> string \<Rightarrow> request_mode \<Rightarrow> request" where
  "new_Request origin u m = \<lparr>url = resolve_url origin u, method = ''GET'', mode = m, headers = []\<rparr>"

text \<open>\<^verbatim>\<open>headers.get(name)\<close>: the value, or \<^verbatim>\<open>null\<close> when the header is absent.\<close>

definition headers_get :: "(string \<times> string) list \<Rightarrow> string \<Rightarrow> string option" where
  "headers_get hs name = map_of hs name"

text \<open>
  The host refuses to store a response whose \<open>Vary\<close> header has the field value
  \<open>*\<close>: the header value is split at commas, each piece is stripped of blanks, and
  one piece is the star.
\<close>

fun split_on :: "char \<Rightarrow> string \<Rightarrow> string list" where
  "split_on sep [] = [[]]"
| "split_on sep (c # cs) =
     (if c = sep then [] # split_on sep cs
      else (case split_on sep cs of [] \<Rightarrow> [[c]] | piece # pieces \<Rightarrow> (c # piece) # pieces))"

definition is_blank :: "char \<Rightarrow> bool" where
  "is_blank c = (c = CHR '' '' \<or> c = CHR 0x09)"

definition strip :: "string \<Rightarrow> string" where
  "strip s = rev (dropWhile is_blank (rev (dropWhile is_blank s)))"

definition vary_star :: "response \<Rightarrow> bool" where
  "vary_star r = (case headers_get (rheaders r) ''vary'' of
     None \<Rightarrow> False
   | Some v \<Rightarrow> ''*'' \<in> set (map strip (split_on (CHR '','') v)))"

text \<open>\<^verbatim>\<open>fetch(request)\<close>.\<close>

definition fetch_p :: "network \<Rightarrow> request \<Rightarrow> response option promise" where
  "fetch_p net req = (\<lambda>w.
     (case net req of Inl reason \<Rightarrow> Inl (NetworkFailure reason) | Inr r \<Rightarrow> Inr r,
      emit [NetFetch req] w))"

text \<open>
  \<^verbatim>\<open>caches.open(name)\<close> creates the bucket when there is none of that name and
  resolves with a handle to it; the handle is the name.
\<close>

definition storage_open :: "string \<Rightarrow> cache_storage \<Rightarrow> cache_storage" where
  "storage_open name st = (if name \<in> set (map fst st) then st else st @ [(name, [])])"

definition caches_open :: "string \<Rightarrow> string promise" where
  "caches_open name = (\<lambda>w.
     (Inr name, emit [BucketOpen name] (w\<lparr>storage := storage_open name (storage w)\<rparr>)))"

text \<open>\<^verbatim>\<open>caches.keys()\<close>: the bucket names in creation order.\<close>

definition caches_keys :: "string list promise" where
  "caches_keys = (\<lambda>w. (Inr (map fst (storage w)), emit [KeysRead] w))"

text \<open>\<^verbatim>\<open>caches.delete(name)\<close> resolves with whether a bucket was deleted.\<close>

definition storage_delete :: "string \<Rightarrow> cache_storage \<Rightarrow> cache_storage" where
  "storage_delete name st = filter (\<lambda>(n, c). n \<noteq> name) st"

definition caches_delete :: "string \<Rightarrow> bool option promise" where
  "caches_delete name = (\<lambda>w.
     (Inr (Some (name \<in> set (map fst (storage w)))),
      emit [BucketDelete name] (w\<lparr>storage := storage_delete name (storage w)\<rparr>)))"

text \<open>
  \<^verbatim>\<open>caches.match(request)\<close> asks every bucket in creation order and resolves with the
  first stored response, or with \<^verbatim>\<open>undefined\<close>.
\<close>

fun storage_match :: "cache_storage \<Rightarrow> string \<Rightarrow> response option" where
  "storage_match [] u = None"
| "storage_match ((n, c) # st) u =
     (case map_of c u of Some r \<Rightarrow> Some r | None \<Rightarrow> storage_match st u)"

definition caches_match :: "string \<Rightarrow> response option promise" where
  "caches_match u = (\<lambda>w. (Inr (storage_match (storage w) u), emit [CacheRead u] w))"

text \<open>
  \<^verbatim>\<open>cache.put(request, response)\<close> rejects a request that is not a GET, a response
  of status 206 and a response whose \<open>Vary\<close> header has the star, and then stores
  nothing. Otherwise it removes the entry stored for the request, if any, and appends the
  new one.
\<close>

definition cache_put :: "string \<Rightarrow> response \<Rightarrow> cache \<Rightarrow> cache" where
  "cache_put u r c = filter (\<lambda>(k, v). k \<noteq> u) c @ [(u, r)]"

definition storage_put :: "string \<Rightarrow> string \<Rightarrow> response \<Rightarrow> cache_storage \<Rightarrow> cache_storage" where
  "storage_put name u r st = map (\<lambda>(n, c). if n = name then (n, cache_put u r c) else (n, c)) st"

definition cache_put_p :: "string \<Rightarrow> request \<Rightarrow> response \<Rightarrow> unit promise" where
  "cache_put_p name req r = (\<lambda>w.
     if method req \<noteq> ''GET'' \<or> status r = 206 \<or> vary_star r then (Inl PutTypeError, w)
     else (Inr (), emit [CacheWrite name (url req)]
                    (w\<lparr>storage := storage_put name (url req) r (storage w)\<rparr>)))"

text \<open>
  Outstanding work, when the host gets to it: the bucket is opened and the put is made;
  a rejection goes unseen. \<open>settle\<close> lets the host finish all that is outstanding.
\<close>

fun run_deferred :: "deferred \<Rightarrow> unit promise" where
  "run_deferred (OpenThenPut name req r) =
     then_p (caches_open name) (\<lambda>cache. cache_put_p cache req r)"

fun settle_all :: "deferred list \<Rightarrow> world \<Rightarrow> world" where
  "settle_all [] w = w"
| "settle_all (d # ds) w = settle_all ds (snd (run_deferred d w))"

definition settle :: "world \<Rightarrow> world" where
  "settle w = settle_all (pending w) (w\<lparr>pending := []\<rparr>)"

text \<open>
  \<^verbatim>\<open>cache.addAll(requests)\<close> is one operation of the host: it rejects a request that
  is not a GET, fetches every request, rejects when a fetch fails or a response is not an
  ok one (status 200 to 299 other than 206, no star in the \<open>Vary\<close> header), rejects
  requests that repeat a URL, and only then stores all the responses. A rejected \<^verbatim>\<open>addAll\<close> stores nothing. The status
  of an opaque response reads 0, so an opaque response is not an ok one.
\<close>

definition response_ok :: "string + response option \<Rightarrow> bool" where
  "response_ok x = (case x of
     Inl reason \<Rightarrow> False
   | Inr None \<Rightarrow> False
   | Inr (Some r) \<Rightarrow> rtype r \<noteq> ErrorType \<and> 200 \<le> status r \<and> status r \<le> 299
                     \<and> status r \<noteq> 206 \<and> \<not> vary_star r)"

fun put_all :: "string \<Rightarrow> (request \<times> (string + response option)) list \<Rightarrow> cache_storage \<Rightarrow> cache_storage" where
  "put_all name [] st = st"
| "put_all name ((req, Inr (Some r)) # xs) st = put_all name xs (storage_put name (url req) r st)"
| "put_all name ((req, x) # xs) st = put_all name xs st"

definition cache_addAll :: "network \<Rightarrow> string \<Rightarrow> request list \<Rightarrow> unit promise" where
  "cache_addAll net name requests = (\<lambda>w.
     if \<not> list_all (\<lambda>req. method req = ''GET'') requests then (Inl AddAllTypeError, w)
     else if \<not> list_all (\<lambda>req. response_ok (net req)) requests
       then (Inl AddAllTypeError, emit (map NetFetch requests) w)
     else if \<not> distinct (map url requests)
       then (Inl InvalidStateError, emit (map NetFetch requests) w)
     else (Inr (),
       emit (map NetFetch requests @ map (\<lambda>req. CacheWrite name (url req)) requests)
         (w\<lparr>storage := put_all name (map (\<lambda>req. (req, net req)) requests) (storage w)\<rparr>)))"

subsection \<open>The worker script\<close>

definition CACHE_NAME :: string where
  "CACHE_NAME = ''wedding-invitation-v1.0.0''"

definition urlsToCache :: "string list" where
  "urlsToCache =
    [''/'',
     ''/index.html'',
     ''/css/styles.css'',
     ''/js/script.js'',
     ''/assets/background.png'',
     ''/assets/wedding-music.mp3'',
     ''/assets/invitation-card.pdf'',
     ''/manifest.json'',
     ''https://i.pinimg.com/originals/f6/27/91/f62791c3d0e3e2c3a0b3e0e3e3d8e3c3.png'',
     ''https://maps.app.goo.gl/ctKUnnbbKhS6xQcz7'']"

text \<open>
  The install handler: the promise handed to \<^verbatim>\<open>event.waitUntil\<close>, then
  \<^verbatim>\<open>self.skipWaiting()\<close>. Installation succeeds when that promise resolves. The
  model settles the promise and records the call that follows it in the script after
  that.
\<close>

definition install_promise :: "network \<Rightarrow> string \<Rightarrow> unit promise" where
  "install_promise net origin =
     catch_p
       (then_p (caches_open CACHE_NAME) (\<lambda>cache.
          cache_addAll net cache (map (\<lambda>u. new_Request origin u NoCors) urlsToCache)))
       (\<lambda>error. resolve ())"

definition on_install :: "network \<Rightarrow> string \<Rightarrow> world \<Rightarrow> (error + unit) \<times> world" where
  "on_install net origin w =
     (case install_promise net origin w of (r, w') \<Rightarrow> (r, emit [SkipWaiting] w'))"

text \<open>
  The activate handler: delete every bucket whose name is not \<open>CACHE_NAME\<close>, then
  \<^verbatim>\<open>self.clients.claim()\<close>. A bucket that is kept maps to \<^verbatim>\<open>undefined\<close>.
\<close>

definition activate_promise :: "bool option list promise" where
  "activate_promise =
     then_p caches_keys (\<lambda>cacheNames.
       promise_all (map (\<lambda>cacheName.
         if cacheName \<noteq> CACHE_NAME then caches_delete cacheName else resolve None) cacheNames))"

definition on_activate :: "world \<Rightarrow> (error + bool option list) \<times> world" where
  "on_activate w = (case activate_promise w of (r, w') \<Rightarrow> (r, emit [ClientsClaim] w'))"

text \<open>
  The fetch handler. \<open>None\<close>: the handler returned without \<^verbatim>\<open>event.respondWith\<close>, and
  the host performs the request itself. \<open>Some p\<close>: the handler answered with the promise
  \<open>p\<close>.
\<close>

definition fetch_handler :: "network \<Rightarrow> string \<Rightarrow> request \<Rightarrow> response option promise option" where
  "fetch_handler net origin request =
     (if method request \<noteq> ''GET'' then None
      else if includes_str (url request) ''maps.app.goo.gl'' then None
      else Some
        (then_p (caches_match (url request)) (\<lambda>response.
           case response of
             Some cached \<Rightarrow> resolve (Some cached)
           | None \<Rightarrow>
               catch_p
                 (then_p (fetch_p net request) (\<lambda>response.
                    case response of
                      None \<Rightarrow> resolve response
                    | Some r \<Rightarrow>
                        if status r \<noteq> 200 \<or> rtype r \<noteq> Basic then resolve response
                        else then_p
                          (if startsWith (url request) origin
                           then not_awaited (OpenThenPut CACHE_NAME request r)
                           else resolve ())
                          (\<lambda>u. resolve response)))
                 (\<lambda>error.
                    case headers_get (headers request) ''accept'' of
                      None \<Rightarrow> reject NullDereference
                    | Some accept \<Rightarrow>
                        if includes_str accept ''text/html''
                        then caches_match (resolve_url origin ''/index.html'')
                        else reject error))))"

datatype fetch_outcome = PassThrough | Respond "response option" | Rejected error

definition on_fetch :: "network \<Rightarrow> string \<Rightarrow> request \<Rightarrow> world \<Rightarrow> fetch_outcome \<times> world" where
  "on_fetch net origin request w =
     (case fetch_handler net origin request of
        None \<Rightarrow> (PassThrough, w)
      | Some p \<Rightarrow> (case p w of (Inl e, w') \<Rightarrow> (Rejected e, w') | (Inr r, w') \<Rightarrow> (Respond r, w')))"

text \<open>
  The message handler. \<open>mdata\<close> is \<^verbatim>\<open>event.data\<close> (\<open>None\<close> when it is falsy), \<open>ports\<close>
  is \<^verbatim>\<open>event.ports\<close>. The three tests run one after the other; reading
  \<^verbatim>\<open>event.ports[0]\<close> of an empty list gives \<^verbatim>\<open>undefined\<close>, and the call on it throws,
  which ends the handler. The URLs of a \<open>CACHE_URLS\<close> message become requests of the
  default mode.
\<close>

record message_data =
  mtype :: string
  urls :: "string list"

record message_event =
  mdata :: "message_data option"
  ports :: "nat list"

definition has_type :: "message_event \<Rightarrow> string \<Rightarrow> bool" where
  "has_type event t = (case mdata event of None \<Rightarrow> False | Some d \<Rightarrow> mtype d = t)"

definition on_message :: "network \<Rightarrow> string \<Rightarrow> message_event \<Rightarrow> world \<Rightarrow> (error + unit) \<times> world" where
  "on_message net origin event w =
     (let w1 = (if has_type event ''SKIP_WAITING'' then emit [SkipWaiting] w else w) in
      case (if has_type event ''GET_VERSION''
            then (case ports event of
                    [] \<Rightarrow> (Inl NullDereference, w1)
                  | port # rest \<Rightarrow> (Inr (), emit [PostMessage port CACHE_NAME] w1))
            else (Inr (), w1)) of
        (Inl e, w2) \<Rightarrow> (Inl e, w2)
      | (Inr u, w2) \<Rightarrow>
          (case mdata event of
             None \<Rightarrow> (Inr (), w2)
           | Some d \<Rightarrow>
               if mtype d = ''CACHE_URLS''
               then then_p (caches_open CACHE_NAME) (\<lambda>cache.
                      cache_addAll net cache (map (\<lambda>u. new_Request origin u Cors) (urls d))) w2
               else (Inr (), w2)))"

subsection \<open>Observations on the world\<close>

text \<open>The requests the install handler hands to \<^verbatim>\<open>cache.addAll\<close>.\<close>

definition manifest_requests :: "string \<Rightarrow> request list" where
  "manifest_requests origin = map (\<lambda>u. new_Request origin u NoCors) urlsToCache"

definition all_ok :: "network \<Rightarrow> request list \<Rightarrow> bool" where
  "all_ok net requests = list_all (\<lambda>req. response_ok (net req)) requests"

text \<open>What \<^verbatim>\<open>cache.match(u)\<close> on the bucket of a given name finds.\<close>

definition cache_match :: "cache_storage \<Rightarrow> string \<Rightarrow> string \<Rightarrow> response option" where
  "cache_match st name u = (case map_of st name of None \<Rightarrow> None | Some c \<Rightarrow> map_of c u)"

text \<open>
  Well-formed storage: no two buckets share a name, and no bucket holds two entries for
  one key.
\<close>

definition wf_storage :: "cache_storage \<Rightarrow> bool" where
  "wf_storage st = (distinct (map fst st) \<and> list_all (\<lambda>(n, c). distinct (map fst c)) st)"

text \<open>
  The entries a batch of fetched requests puts, a batch of puts on one bucket, and an
  update of the buckets of one name: the shape of \<open>put_all\<close> that the proofs use.
\<close>

fun entries :: "(request \<times> (string + response option)) list \<Rightarrow> (string \<times> response) list" where
  "entries [] = []"
| "entries ((req, Inr (Some r)) # xs) = (url req, r) # entries xs"
| "entries ((req, x) # xs) = entries xs"

fun cache_put_all :: "(string \<times> response) list \<Rightarrow> cache \<Rightarrow> cache" where
  "cache_put_all [] c = c"
| "cache_put_all ((k, v) # es) c = cache_put_all es (cache_put k v c)"

definition in_bucket :: "string \<Rightarrow> (cache \<Rightarrow> cache) \<Rightarrow> cache_storage \<Rightarrow> cache_storage" where
  "in_bucket name f st = map (\<lambda>(n, c). if n = name then (n, f c) else (n, c)) st"

subsection \<open>Example environments\<close>

definition site :: string where
  "site = ''https://example.com''"

definition page :: "string \<Rightarrow> response" where
  "page content = \<lparr>status = 200, rtype = Basic, body = content, rheaders = []\<rparr>"

definition fresh_world :: world where
  "fresh_world = \<lparr>storage = [], trace = [], pending = []\<rparr>"

text \<open>A browser that holds the bucket of an older deployment.\<close>

definition stale_world :: world where
  "stale_world = \<lparr>storage = [(''wedding-invitation-v0.9.0'', [(site @ ''/'', page ''old'')])],
                   trace = [], pending = []\<rparr>"

text \<open>A browser whose current bucket holds the root document.\<close>

definition shell_world :: world where
  "shell_world = \<lparr>storage = [(CACHE_NAME, [(site @ ''/index.html'', page ''shell'')])],
                   trace = [], pending = []\<rparr>"

text \<open>
  A network on which the music file cannot be fetched: every same-origin request but that
  one is answered with status 200, and a request to another origin with an opaque response,
  whose status reads 0.
\<close>

definition music_offline :: network where
  "music_offline req =
     (if url req = site @ ''/assets/wedding-music.mp3'' then Inl ''offline''
      else if startsWith (url req) (site @ ''/'') then Inr (Some (page (url req)))
      else Inr (Some \<lparr>status = 0, rtype = Opaque, body = '''', rheaders = []\<rparr>))"

text \<open>A network that answers every request with status 200.\<close>

definition all_served :: network where
  "all_served req = Inr (Some (page (url req)))"

text \<open>A network on which every request fails.\<close>

definition offline :: network where
  "offline req = Inl ''offline''"

text \<open>A network on which the server of the other origin allows the cross-origin read.\<close>

definition cors_served :: network where
  "cors_served req = Inr (Some \<lparr>status = 200, rtype = CorsType, body = ''map'', rheaders = []\<rparr>)"

text \<open>A network whose answers, of status 200, say that they vary on everything.\<close>

definition varying :: response where
  "varying = \<lparr>status = 200, rtype = Basic, body = ''photo'', rheaders = [(''vary'', ''*'')]\<rparr>"

definition vary_served :: network where
  "vary_served req = Inr (Some varying)"

text \<open>A network that answers with status 404.\<close>

definition not_found :: network where
  "not_found req = Inr (Some \<lparr>status = 404, rtype = Basic, body = '''', rheaders = []\<rparr>)"

definition maps_url :: string where
  "maps_url = ''https://maps.app.goo.gl/ctKUnnbbKhS6xQcz7''"

definition maps_request :: request where
  "maps_request = \<lparr>url = maps_url, method = ''GET'', mode = Navigate,
                    headers = [(''accept'', ''text/html'')]\<rparr>"

definition about_request :: request where
  "about_request = \<lparr>url = site @ ''/about.html'', method = ''GET'', mode = Navigate,
                     headers = [(''accept'', ''text/html,application/xhtml+xml'')]\<rparr>"

definition photo_request :: request where
  "photo_request = \<lparr>url = site @ ''/assets/photo.png'', method = ''GET'', mode = NoCors,
                     headers = [(''accept'', ''image/png,image/*'')]\<rparr>"

definition bare_request :: request where
  "bare_request = \<lparr>url = site @ ''/assets/photo.png'', method = ''GET'', mode = NoCors,
                    headers = []\<rparr>"

definition post_request :: request where
  "post_request = \<lparr>url = site @ ''/rsvp'', method = ''POST'', mode = Cors,
                    headers = [(''accept'', ''*/*'')]\<rparr>"

definition version_query :: message_event where
  "version_query = \<lparr>mdata = Some \<lparr>mtype = ''GET_VERSION'', urls = []\<rparr>, ports = [7]\<rparr>"

definition cache_maps_message :: message_event where
  "cache_maps_message = \<lparr>mdata = Some \<lparr>mtype = ''CACHE_URLS'', urls = [maps_url]\<rparr>, ports = []\<rparr>"

section \<open>Properties\<close>

lemmas promise_defs = resolve_def reject_def then_p_def catch_p_def not_awaited_def

lemmas host_defs = caches_open_def caches_match_def cache_put_p_def fetch_p_def emit_def

lemmas example_defs = site_def page_def fresh_world_def stale_world_def shell_world_def
  music_offline_def all_served_def offline_def cors_served_def not_found_def maps_url_def
  maps_request_def about_request_def photo_request_def bare_request_def post_request_def
  version_query_def cache_maps_message_def varying_def vary_served_def

subsection \<open>Buckets and entries\<close>






lemma names_open: "fst ` set (storage_open name st) = insert name (fst ` set st)"
  by (auto simp: storage_open_def)

lemma open_open: "storage_open name (storage_open name st) = storage_open name st"
  by (simp add: storage_open_def)

lemma open_present: "name \<in> set (map fst st) \<Longrightarrow> storage_open name st = st"
  by (simp add: storage_open_def)

lemma distinct_open: "distinct (map fst st) \<Longrightarrow> distinct (map fst (storage_open name st))"
  by (auto simp: storage_open_def)

lemma wf_open: "wf_storage st \<Longrightarrow> wf_storage (storage_open name st)"
  by (auto simp: wf_storage_def storage_open_def)


lemma storage_put_in_bucket: "storage_put name u r st = in_bucket name (cache_put u r) st"
  by (simp add: storage_put_def in_bucket_def)

lemma in_bucket_comp: "in_bucket name f (in_bucket name g st) = in_bucket name (\<lambda>c. f (g c)) st"
  by (induction st) (auto simp: in_bucket_def)

lemma in_bucket_id: "in_bucket name (\<lambda>c. c) st = st"
  by (induction st) (auto simp: in_bucket_def)

lemma names_in_bucket: "map fst (in_bucket name f st) = map fst st"
  by (induction st) (auto simp: in_bucket_def)

lemma map_of_in_bucket:
  "map_of (in_bucket name f st) n = (if n = name then map_option f (map_of st n) else map_of st n)"
  by (induction st) (auto simp: in_bucket_def)

lemma wf_in_bucket:
  assumes "wf_storage st" "\<And>c. distinct (map fst c) \<Longrightarrow> distinct (map fst (f c))"
  shows "wf_storage (in_bucket name f st)"
proof -
  have "list_all (\<lambda>(n, c). distinct (map fst c)) st \<Longrightarrow>
        list_all (\<lambda>(n, c). distinct (map fst c)) (in_bucket name f st)"
    by (induction st) (auto simp: in_bucket_def assms(2) split: if_splits)
  with assms(1) show ?thesis
    by (simp add: wf_storage_def names_in_bucket)
qed

lemma put_all_in_bucket:
  "put_all name xs st = in_bucket name (cache_put_all (entries xs)) st"
proof (induction name xs st rule: put_all.induct)
  case (1 name st)
  then show ?case by (simp add: in_bucket_id)
next
  case (2 name req r xs st)
  then show ?case by (simp add: storage_put_in_bucket in_bucket_comp)
qed simp_all

lemma cache_put_all_distinct:
  "distinct (map fst es) \<Longrightarrow>
   cache_put_all es c = filter (\<lambda>(k, v). k \<notin> set (map fst es)) c @ es"
proof (induction es arbitrary: c)
  case Nil
  then show ?case by simp
next
  case (Cons e es)
  obtain k v where e: "e = (k, v)" by (cases e)
  from Cons.prems e have d: "distinct (map fst es)" and k: "k \<notin> set (map fst es)" by auto
  have "filter (\<lambda>(k', v'). k' \<notin> set (map fst es)) (filter (\<lambda>(k', v'). k' \<noteq> k) c)
        = filter (\<lambda>(k', v'). k' \<notin> set (map fst (e # es))) c"
    by (induction c) (auto simp: e)
  with Cons.IH[OF d, of "cache_put k v c"] k show ?case
    by (simp add: e cache_put_def)
qed

lemma cache_put_all_idem:
  assumes "distinct (map fst es)"
  shows "cache_put_all es (cache_put_all es c) = cache_put_all es c"
proof -
  have "filter (\<lambda>(k, v). k \<notin> set (map fst es)) es = []"
    by (force simp: filter_empty_conv)
  then show ?thesis
    by (simp add: cache_put_all_distinct[OF assms])
qed

lemma cache_put_all_keys_distinct:
  assumes "distinct (map fst es)" "distinct (map fst c)"
  shows "distinct (map fst (cache_put_all es c))"
proof -
  have "set (map fst (filter (\<lambda>(k, v). k \<notin> set (map fst es)) c)) \<inter> set (map fst es) = {}"
    by force
  moreover have "distinct (map fst (filter (\<lambda>(k, v). k \<notin> set (map fst es)) c))"
    using assms(2) by (simp add: distinct_map_filter)
  ultimately show ?thesis using assms(1)
    by (simp add: cache_put_all_distinct[OF assms(1)])
qed

lemma map_of_cache_put_all:
  assumes "distinct (map fst es)" "(k, v) \<in> set es"
  shows "map_of (cache_put_all es c) k = Some v"
proof -
  have "map_of (filter (\<lambda>(k', v'). k' \<notin> set (map fst es)) c) k = None"
    using assms(2) by (force simp: map_of_eq_None_iff)
  moreover have "map_of es k = Some v"
    using assms by simp
  ultimately show ?thesis
    by (simp add: cache_put_all_distinct[OF assms(1)] map_add_def[symmetric] map_add_Some_iff)
qed

lemma no_headers_no_star: "rheaders r = [] \<Longrightarrow> \<not> vary_star r"
  by (simp add: vary_star_def headers_get_def)

lemma ok_response: "response_ok x \<Longrightarrow> \<exists>r. x = Inr (Some r)"
  by (auto simp: response_ok_def split: sum.splits option.splits)

lemma entries_keys:
  "all_ok net rs \<Longrightarrow> map fst (entries (map (\<lambda>req. (req, net req)) rs)) = map url rs"
proof (induction rs)
  case Nil
  then show ?case by simp
next
  case (Cons a rs)
  from Cons.prems have "response_ok (net a)" by (simp add: all_ok_def)
  from ok_response[OF this] obtain r where r: "net a = Inr (Some r)" ..
  from Cons.prems have "all_ok net rs" by (simp add: all_ok_def)
  with Cons.IH r show ?case by simp
qed

lemma entries_member:
  "all_ok net rs \<Longrightarrow> req \<in> set rs \<Longrightarrow> net req = Inr (Some r) \<Longrightarrow>
   (url req, r) \<in> set (entries (map (\<lambda>req. (req, net req)) rs))"
proof (induction rs)
  case Nil
  then show ?case by simp
next
  case (Cons a rs)
  from Cons.prems(1) have "response_ok (net a)" by (simp add: all_ok_def)
  from ok_response[OF this] obtain ra where ra: "net a = Inr (Some ra)" ..
  from Cons.prems(1) have ok: "all_ok net rs" by (simp add: all_ok_def)
  show ?case
  proof (cases "req = a")
    case True
    with ra Cons.prems(3) show ?thesis by simp
  next
    case False
    with Cons.prems(2) have "req \<in> set rs" by simp
    from Cons.IH[OF ok this Cons.prems(3)] ra show ?thesis by simp
  qed
qed

subsection \<open>The install handler\<close>

lemma manifest_methods: "list_all (\<lambda>req. method req = ''GET'') (manifest_requests origin)"
  by (simp add: manifest_requests_def list_all_iff new_Request_def)

lemma append_neq_literal:
  "\<not> suffix p a \<Longrightarrow> origin @ p \<noteq> a"
  "\<not> suffix p a \<Longrightarrow> a \<noteq> origin @ p"
  by (auto simp: suffix_def)

text \<open>Whatever the origin, the manifest names ten different URLs.\<close>

lemma manifest_distinct: "distinct (map url (manifest_requests origin))"
  by (simp add: manifest_requests_def urlsToCache_def new_Request_def resolve_url_def
      append_neq_literal suffix_Cons)

lemma install_world:
  "on_install net origin w =
     (Inr (),
      if all_ok net (manifest_requests origin)
      then emit ([BucketOpen CACHE_NAME] @ map NetFetch (manifest_requests origin)
                 @ map (\<lambda>req. CacheWrite CACHE_NAME (url req)) (manifest_requests origin) @ [SkipWaiting])
             (w\<lparr>storage := put_all CACHE_NAME (map (\<lambda>req. (req, net req)) (manifest_requests origin))
                              (storage_open CACHE_NAME (storage w))\<rparr>)
      else emit ([BucketOpen CACHE_NAME] @ map NetFetch (manifest_requests origin) @ [SkipWaiting])
             (w\<lparr>storage := storage_open CACHE_NAME (storage w)\<rparr>))"
  using manifest_methods[of origin] manifest_distinct[of origin]
  by (simp add: on_install_def install_promise_def promise_defs caches_open_def cache_addAll_def
      emit_def all_ok_def manifest_requests_def)

lemma install_storage:
  "storage (snd (on_install net origin w)) =
     (if all_ok net (manifest_requests origin)
      then in_bucket CACHE_NAME
             (cache_put_all (entries (map (\<lambda>req. (req, net req)) (manifest_requests origin))))
             (storage_open CACHE_NAME (storage w))
      else storage_open CACHE_NAME (storage w))"
  by (simp add: install_world emit_def put_all_in_bucket)

lemma install_resolves: "fst (on_install net origin w) = Inr ()"
  by (simp add: install_world)

lemma install_names:
  "map fst (storage (snd (on_install net origin w))) = map fst (storage_open CACHE_NAME (storage w))"
  by (simp add: install_storage names_in_bucket)

lemma install_stores_manifest:
  assumes "all_ok net (manifest_requests origin)" "req \<in> set (manifest_requests origin)"
  shows "Inr (cache_match (storage (snd (on_install net origin w))) CACHE_NAME (url req)) = net req"
proof -
  let ?es = "entries (map (\<lambda>req. (req, net req)) (manifest_requests origin))"
  from assms have "response_ok (net req)"
    by (simp add: all_ok_def list_all_iff)
  from ok_response[OF this] obtain r where r: "net req = Inr (Some r)" ..
  have d: "distinct (map fst ?es)"
    by (simp add: entries_keys[OF assms(1)] manifest_distinct)
  have m: "(url req, r) \<in> set ?es"
    by (rule entries_member[OF assms r])
  have "CACHE_NAME \<in> fst ` set (storage_open CACHE_NAME (storage w))"
    by (simp add: names_open)
  then obtain c where c: "map_of (storage_open CACHE_NAME (storage w)) CACHE_NAME = Some c"
    by (metis map_of_eq_None_iff not_Some_eq)
  have "cache_match (storage (snd (on_install net origin w))) CACHE_NAME (url req) = Some r"
    using assms(1) c map_of_cache_put_all[OF d m]
    by (simp add: cache_match_def install_storage map_of_in_bucket)
  with r show ?thesis by simp
qed

lemma install_twice:
  "storage (snd (on_install net origin (snd (on_install net origin w)))) =
   storage (snd (on_install net origin w))"
proof (cases "all_ok net (manifest_requests origin)")
  case True
  let ?es = "entries (map (\<lambda>req. (req, net req)) (manifest_requests origin))"
  let ?st1 = "in_bucket CACHE_NAME (cache_put_all ?es) (storage_open CACHE_NAME (storage w))"
  have d: "distinct (map fst ?es)"
    by (simp add: entries_keys[OF True] manifest_distinct)
  have "CACHE_NAME \<in> set (map fst ?st1)"
    by (simp add: names_in_bucket names_open)
  then have "storage_open CACHE_NAME ?st1 = ?st1"
    by (rule open_present)
  then show ?thesis using True
    by (simp add: install_storage in_bucket_comp cache_put_all_idem[OF d])
next
  case False
  then show ?thesis by (simp add: install_storage open_open)
qed

lemma install_wf:
  assumes "wf_storage (storage w)"
  shows "wf_storage (storage (snd (on_install net origin w)))"
proof (cases "all_ok net (manifest_requests origin)")
  case True
  let ?es = "entries (map (\<lambda>req. (req, net req)) (manifest_requests origin))"
  have d: "distinct (map fst ?es)"
    by (simp add: entries_keys[OF True] manifest_distinct)
  have "wf_storage (in_bucket CACHE_NAME (cache_put_all ?es) (storage_open CACHE_NAME (storage w)))"
    by (rule wf_in_bucket[OF wf_open[OF assms]]) (rule cache_put_all_keys_distinct[OF d])
  with True show ?thesis by (simp add: install_storage)
next
  case False
  with wf_open[OF assms] show ?thesis by (simp add: install_storage)
qed

subsection \<open>The activate handler\<close>

lemma promise_all_delete:
  "promise_all (map (\<lambda>cacheName. if cacheName \<noteq> CACHE_NAME then caches_delete cacheName
                                   else resolve None) ns) w = (r, w')
   \<Longrightarrow> (\<exists>xs. r = Inr xs) \<and>
       storage w' = filter (\<lambda>(n, c). n = CACHE_NAME \<or> n \<notin> set ns) (storage w)"
proof (induction ns arbitrary: w r w')
  case Nil
  then show ?case by (auto simp: resolve_def)
next
  case (Cons a ns)
  let ?rest = "promise_all (map (\<lambda>cacheName. if cacheName \<noteq> CACHE_NAME
                  then caches_delete cacheName else resolve None) ns)"
  show ?case
  proof (cases "a = CACHE_NAME")
    case True
    obtain rs w2 where rec: "?rest w = (rs, w2)"
      by (cases "?rest w") auto
    from Cons.IH[OF rec] obtain xs where xs: "rs = Inr xs"
      and st: "storage w2 = filter (\<lambda>(n, c). n = CACHE_NAME \<or> n \<notin> set ns) (storage w)"
      by auto
    from Cons.prems True rec xs have "r = Inr (None # xs)" "w' = w2"
      by (auto simp: resolve_def)
    with st True show ?thesis by (auto intro: filter_cong)
  next
    case False
    let ?w1 = "emit [BucketDelete a] (w\<lparr>storage := storage_delete a (storage w)\<rparr>)"
    obtain rs w2 where rec: "?rest ?w1 = (rs, w2)"
      by (cases "?rest ?w1") auto
    from Cons.IH[OF rec] obtain xs where xs: "rs = Inr xs"
      and st: "storage w2 = filter (\<lambda>(n, c). n = CACHE_NAME \<or> n \<notin> set ns) (storage ?w1)"
      by auto
    from Cons.prems False rec xs have "\<exists>ys. r = Inr ys" "w' = w2"
      by (auto simp: caches_delete_def)
    moreover have "filter (\<lambda>(n, c). n = CACHE_NAME \<or> n \<notin> set ns) (storage ?w1)
        = filter (\<lambda>(n, c). n = CACHE_NAME \<or> n \<notin> set (a # ns)) (storage w)"
      using False by (auto simp: emit_def storage_delete_def intro: filter_cong)
    ultimately show ?thesis using st by simp
  qed
qed

lemma activate_storage:
  "storage (snd (on_activate w)) = filter (\<lambda>(n, c). n = CACHE_NAME) (storage w)"
proof -
  let ?all = "promise_all (map (\<lambda>cacheName. if cacheName \<noteq> CACHE_NAME
                 then caches_delete cacheName else resolve None) (map fst (storage w)))"
  obtain r w' where rec: "?all (emit [KeysRead] w) = (r, w')"
    by (cases "?all (emit [KeysRead] w)") auto
  from promise_all_delete[OF rec]
  have "storage w' = filter (\<lambda>(n, c). n = CACHE_NAME \<or> n \<notin> set (map fst (storage w))) (storage w)"
    by (simp add: emit_def)
  also have "\<dots> = filter (\<lambda>(n, c). n = CACHE_NAME) (storage w)"
    by (rule filter_cong) force+
  finally show ?thesis using rec
    by (simp add: on_activate_def activate_promise_def then_p_def caches_keys_def emit_def)
qed

lemma activate_resolves: "\<exists>xs. fst (on_activate w) = Inr xs"
proof -
  let ?all = "promise_all (map (\<lambda>cacheName. if cacheName \<noteq> CACHE_NAME
                 then caches_delete cacheName else resolve None) (map fst (storage w)))"
  obtain r w' where rec: "?all (emit [KeysRead] w) = (r, w')"
    by (cases "?all (emit [KeysRead] w)") auto
  from promise_all_delete[OF rec] rec show ?thesis
    by (auto simp add: on_activate_def activate_promise_def then_p_def caches_keys_def)
qed

lemma filter_the_name:
  "distinct ns \<Longrightarrow> name \<in> set ns \<Longrightarrow> filter (\<lambda>n. n = name) ns = [name]"
  by (induction ns) (auto simp: filter_empty_conv)

lemma activate_names:
  "map fst (storage (snd (on_activate w))) = filter (\<lambda>n. n = CACHE_NAME) (map fst (storage w))"
  by (simp add: activate_storage filter_map comp_def case_prod_unfold)

subsection \<open>The fetch handler\<close>




subsection \<open>Well-formed storage is kept by every handler\<close>

lemma wf_storage_put: "wf_storage st \<Longrightarrow> wf_storage (storage_put name u r st)"
  unfolding storage_put_in_bucket
  by (rule wf_in_bucket) (auto simp: cache_put_def distinct_map_filter)

lemma wf_put_all: "wf_storage st \<Longrightarrow> wf_storage (put_all name xs st)"
  by (induction name xs st rule: put_all.induct) (simp_all add: wf_storage_put)

lemma wf_filter: "wf_storage st \<Longrightarrow> wf_storage (filter P st)"
  by (auto simp: wf_storage_def distinct_map_filter list_all_iff)

lemma activate_wf: "wf_storage (storage w) \<Longrightarrow> wf_storage (storage (snd (on_activate w)))"
  by (simp add: activate_storage wf_filter)

lemma fetch_storage: "storage (snd (on_fetch net origin request w)) = storage w"
  by (auto simp: on_fetch_def fetch_handler_def promise_defs host_defs
      split: option.splits sum.splits)

lemma fetch_wf:
  "wf_storage (storage w) \<Longrightarrow> wf_storage (storage (snd (on_fetch net origin request w)))"
  by (simp add: fetch_storage)

lemma run_deferred_wf:
  "wf_storage (storage w) \<Longrightarrow> wf_storage (storage (snd (run_deferred d w)))"
  by (cases d) (simp add: then_p_def host_defs wf_storage_put wf_open)

lemma settle_all_wf:
  "wf_storage (storage w) \<Longrightarrow> wf_storage (storage (settle_all ds w))"
  by (induction ds arbitrary: w) (simp_all add: run_deferred_wf)

lemma settle_wf: "wf_storage (storage w) \<Longrightarrow> wf_storage (storage (settle w))"
  by (simp add: settle_def settle_all_wf)

lemma addAll_wf:
  "wf_storage (storage w) \<Longrightarrow> wf_storage (storage (snd (cache_addAll net name requests w)))"
  by (simp add: cache_addAll_def emit_def wf_put_all)

lemma message_wf:
  "wf_storage (storage w) \<Longrightarrow> wf_storage (storage (snd (on_message net origin event w)))"
proof -
  assume wf: "wf_storage (storage w)"
  have opened: "wf_storage (storage (snd (then_p (caches_open CACHE_NAME) (\<lambda>cache.
      cache_addAll net cache requests) v)))" if "wf_storage (storage v)" for v requests
    using addAll_wf[of "emit [BucketOpen CACHE_NAME] (v\<lparr>storage := storage_open CACHE_NAME (storage v)\<rparr>)"
        net CACHE_NAME requests] wf_open[OF that, of CACHE_NAME]
    by (simp add: then_p_def caches_open_def emit_def split: prod.splits sum.splits)
  show ?thesis
    using wf opened
    by (auto simp: on_message_def Let_def emit_def split: list.splits option.splits if_splits)
qed

lemma fresh_wf: "wf_storage (storage fresh_world)"
  by (simp add: fresh_world_def wf_storage_def)

section \<open>The claims\<close>

subsection \<open>Fetch interception\<close>

text \<open>
  C3. A request whose method is not GET is passed through untouched: the handler returns
  before it answers, so the world is the same afterwards: no cache read, no cache write,
  no network request of the worker. Interception reads or writes the cache for GET
  requests only.
\<close>

theorem fetch_passes_non_get:
  assumes "method request \<noteq> ''GET''"
  shows "on_fetch net origin request w = (PassThrough, w)"
  using assms by (simp add: on_fetch_def fetch_handler_def)

theorem fetch_passes_non_get_witness:
  "method post_request \<noteq> ''GET'' \<and> on_fetch offline site post_request shell_world = (PassThrough, shell_world)"
  using fetch_passes_non_get[of post_request offline site shell_world]
  by (simp add: post_request_def)

text \<open>
  C5. On a cache miss the handler asks the network. A response that is missing, or whose
  status is not 200, or whose type is not basic, is returned as it is; the world
  afterwards differs only by the trace of the cache read and the network request, so
  nothing is written.
\<close>

theorem miss_returns_unusable_response_uncached:
  assumes "method request = ''GET''"
    and "\<not> includes_str (url request) ''maps.app.goo.gl''"
    and "storage_match (storage w) (url request) = None"
    and "net request = Inr response"
    and "case response of None \<Rightarrow> True | Some r \<Rightarrow> status r \<noteq> 200 \<or> rtype r \<noteq> Basic"
  shows "on_fetch net origin request w =
           (Respond response, emit [CacheRead (url request), NetFetch request] w)
         \<and> storage (snd (on_fetch net origin request w)) = storage w"
  using assms
  by (auto simp add: on_fetch_def fetch_handler_def promise_defs host_defs split: option.splits)

theorem miss_returns_unusable_response_uncached_witness:
  "method photo_request = ''GET''
   \<and> \<not> includes_str (url photo_request) ''maps.app.goo.gl''
   \<and> storage_match (storage shell_world) (url photo_request) = None
   \<and> on_fetch not_found site photo_request shell_world =
       (Respond (Some \<lparr>status = 404, rtype = Basic, body = '''', rheaders = []\<rparr>),
        emit [CacheRead (url photo_request), NetFetch photo_request] shell_world)
   \<and> storage (snd (on_fetch not_found site photo_request shell_world)) = storage shell_world"
proof -
  have h1: "method photo_request = ''GET''"
    by (simp add: photo_request_def)
  have h2: "\<not> includes_str (url photo_request) ''maps.app.goo.gl''"
    by (simp add: photo_request_def site_def)
  have h3: "storage_match (storage shell_world) (url photo_request) = None"
    by (simp add: photo_request_def shell_world_def site_def)
  have h4: "not_found photo_request = Inr (Some \<lparr>status = 404, rtype = Basic, body = '''', rheaders = []\<rparr>)"
    by (simp add: not_found_def)
  from miss_returns_unusable_response_uncached[where net = not_found and origin = site, OF h1 h2 h3 h4] h1 h2 h3
  show ?thesis by (simp add: emit_def)
qed




text \<open>
  C7. When the cache misses and the network request fails, a request whose Accept header
  contains \<open>text/html\<close> is answered with what the cache holds for \<open>/index.html\<close>, and a
  request whose Accept header does not contain it is rejected with the failure of the
  network; no response is put in its place.
\<close>

theorem offline_fallback_for_documents_only:
  assumes "method request = ''GET''"
    and "\<not> includes_str (url request) ''maps.app.goo.gl''"
    and "storage_match (storage w) (url request) = None"
    and "net request = Inl reason"
    and "headers_get (headers request) ''accept'' = Some accept"
  shows "(includes_str accept ''text/html'' \<longrightarrow>
            fst (on_fetch net origin request w) =
              Respond (storage_match (storage w) (resolve_url origin ''/index.html'')))
         \<and> (\<not> includes_str accept ''text/html'' \<longrightarrow>
            fst (on_fetch net origin request w) = Rejected (NetworkFailure reason))
         \<and> storage (snd (on_fetch net origin request w)) = storage w"
  using assms
  by (simp add: on_fetch_def fetch_handler_def promise_defs host_defs)

theorem offline_fallback_for_documents_only_witness:
  "storage_match (storage shell_world) (url about_request) = None
   \<and> offline about_request = Inl ''offline''
   \<and> includes_str ''text/html,application/xhtml+xml'' ''text/html''
   \<and> fst (on_fetch offline site about_request shell_world) = Respond (Some (page ''shell''))
   \<and> storage_match (storage shell_world) (url photo_request) = None
   \<and> offline photo_request = Inl ''offline''
   \<and> \<not> includes_str ''image/png,image/*'' ''text/html''
   \<and> fst (on_fetch offline site photo_request shell_world) = Rejected (NetworkFailure ''offline'')"
proof -
  have a1: "method about_request = ''GET''"
    by (simp add: about_request_def)
  have a2: "\<not> includes_str (url about_request) ''maps.app.goo.gl''"
    by (simp add: about_request_def site_def)
  have a3: "storage_match (storage shell_world) (url about_request) = None"
    by (simp add: about_request_def shell_world_def site_def)
  have a4: "offline about_request = Inl ''offline''"
    by (simp add: offline_def)
  have a5: "headers_get (headers about_request) ''accept'' = Some ''text/html,application/xhtml+xml''"
    by (simp add: about_request_def headers_get_def)
  have a6: "includes_str ''text/html,application/xhtml+xml'' ''text/html''"
    by simp
  have a7: "storage_match (storage shell_world) (resolve_url site ''/index.html'') = Some (page ''shell'')"
    by (simp add: shell_world_def resolve_url_def site_def)
  have p1: "method photo_request = ''GET''"
    by (simp add: photo_request_def)
  have p2: "\<not> includes_str (url photo_request) ''maps.app.goo.gl''"
    by (simp add: photo_request_def site_def)
  have p3: "storage_match (storage shell_world) (url photo_request) = None"
    by (simp add: photo_request_def shell_world_def site_def)
  have p4: "offline photo_request = Inl ''offline''"
    by (simp add: offline_def)
  have p5: "headers_get (headers photo_request) ''accept'' = Some ''image/png,image/*''"
    by (simp add: photo_request_def headers_get_def)
  have p6: "\<not> includes_str ''image/png,image/*'' ''text/html''"
    by simp
  from offline_fallback_for_documents_only[where net = offline and origin = site, OF a1 a2 a3 a4 a5] a6 a7
  have "fst (on_fetch offline site about_request shell_world) = Respond (Some (page ''shell''))"
    by simp
  moreover from offline_fallback_for_documents_only[where net = offline and origin = site, OF p1 p2 p3 p4 p5] p6
  have "fst (on_fetch offline site photo_request shell_world) = Rejected (NetworkFailure ''offline'')"
    by simp
  ultimately show ?thesis using a3 a4 a6 p3 p4 p6 by blast
qed

text \<open>
  C10. A GET request without an Accept header that misses the cache while the network
  request fails: the handler reads the absent header as \<open>null\<close> and calls a method on it,
  so the answer is rejected with that type error. It is neither the fallback document nor
  the failure of the network.
\<close>

theorem missing_accept_header_faults:
  assumes "method request = ''GET''"
    and "\<not> includes_str (url request) ''maps.app.goo.gl''"
    and "storage_match (storage w) (url request) = None"
    and "net request = Inl reason"
    and "headers_get (headers request) ''accept'' = None"
  shows "on_fetch net origin request w =
           (Rejected NullDereference, emit [CacheRead (url request), NetFetch request] w)
         \<and> fst (on_fetch net origin request w) \<noteq> Rejected (NetworkFailure reason)
         \<and> fst (on_fetch net origin request w) \<noteq>
             Respond (storage_match (storage w) (resolve_url origin ''/index.html''))"
  using assms
  by (simp add: on_fetch_def fetch_handler_def promise_defs host_defs)

theorem missing_accept_header_faults_witness:
  "headers_get (headers bare_request) ''accept'' = None
   \<and> storage_match (storage shell_world) (url bare_request) = None
   \<and> offline bare_request = Inl ''offline''
   \<and> fst (on_fetch offline site bare_request shell_world) = Rejected NullDereference"
proof -
  have h1: "method bare_request = ''GET''"
    by (simp add: bare_request_def)
  have h2: "\<not> includes_str (url bare_request) ''maps.app.goo.gl''"
    by (simp add: bare_request_def site_def)
  have h3: "storage_match (storage shell_world) (url bare_request) = None"
    by (simp add: bare_request_def shell_world_def site_def)
  have h4: "offline bare_request = Inl ''offline''"
    by (simp add: offline_def)
  have h5: "headers_get (headers bare_request) ''accept'' = None"
    by (simp add: bare_request_def headers_get_def)
  from missing_accept_header_faults[where net = offline and origin = site, OF h1 h2 h3 h4 h5] h3 h4 h5
  show ?thesis by simp
qed

text \<open>
  C2, as amended. A request whose URL contains \<open>maps.app.goo.gl\<close> is passed through by
  the fetch handler: it is neither answered from the cache nor stored, and the worker asks
  the network nothing. The exclusion is a test of the fetch handler only. The manifest of
  the install handler lists a URL of that host, and a \<open>CACHE_URLS\<close> message may carry
  one; both hand it to \<^verbatim>\<open>cache.addAll\<close>, which stores it when every response of the
  batch is an ok one.
\<close>

theorem fetch_passes_maps_link:
  assumes "includes_str (url request) ''maps.app.goo.gl''"
  shows "on_fetch net origin request w = (PassThrough, w)"
  using assms by (simp add: on_fetch_def fetch_handler_def)

theorem fetch_passes_maps_link_witness:
  "includes_str (url maps_request) ''maps.app.goo.gl''
   \<and> on_fetch all_served site maps_request shell_world = (PassThrough, shell_world)"
proof -
  have h: "includes_str (url maps_request) ''maps.app.goo.gl''"
    by (simp add: maps_request_def maps_url_def)
  from fetch_passes_maps_link[OF h] h show ?thesis by simp
qed

text \<open>
  The claim as stated fails: a \<open>CACHE_URLS\<close> message that names the maps link, on a
  network where the other server allows the read, ends with an entry for the maps link
  in the current bucket.
\<close>

theorem maps_link_cached_counterexample:
  "includes_str maps_url ''maps.app.goo.gl''
   \<and> cache_match (storage fresh_world) CACHE_NAME maps_url = None
   \<and> cache_match (storage (snd (on_message cors_served site cache_maps_message fresh_world)))
        CACHE_NAME maps_url = Some \<lparr>status = 200, rtype = CorsType, body = ''map'', rheaders = []\<rparr>
   \<and> CacheWrite CACHE_NAME maps_url
        \<in> set (trace (snd (on_message cors_served site cache_maps_message fresh_world)))"
  by (simp add: on_message_def has_type_def cache_maps_message_def fresh_world_def
      cors_served_def maps_url_def then_p_def caches_open_def cache_addAll_def emit_def
      storage_open_def response_ok_def new_Request_def resolve_url_def storage_put_def
      cache_put_def cache_match_def CACHE_NAME_def no_headers_no_star)

subsection \<open>Messages\<close>

text \<open>
  C9. A message of type \<open>GET_VERSION\<close> that comes with a reply port: the handler does
  not throw, and what it adds to the trace is exactly one message, posted on that port,
  which carries \<open>CACHE_NAME\<close>. Storage is unchanged.
\<close>

theorem get_version_replies_once:
  assumes "mdata event = Some d"
    and "mtype d = ''GET_VERSION''"
    and "ports event = port # rest"
  shows "on_message net origin event w = (Inr (), emit [PostMessage port CACHE_NAME] w)"
  using assms by (simp add: on_message_def has_type_def)

theorem get_version_replies_once_witness:
  "mdata version_query = Some \<lparr>mtype = ''GET_VERSION'', urls = []\<rparr>
   \<and> ports version_query = [7]
   \<and> on_message offline site version_query fresh_world =
       (Inr (), \<lparr>storage = [], trace = [PostMessage 7 ''wedding-invitation-v1.0.0''],
                 pending = []\<rparr>)"
proof -
  have h1: "mdata version_query = Some \<lparr>mtype = ''GET_VERSION'', urls = []\<rparr>"
    by (simp add: version_query_def)
  have h2: "mtype \<lparr>mtype = ''GET_VERSION'', urls = []\<rparr> = ''GET_VERSION''"
    by simp
  have h3: "ports version_query = [7]"
    by (simp add: version_query_def)
  from get_version_replies_once[OF h1 h2 h3, of offline site fresh_world] h1 h3
  show ?thesis by (simp add: emit_def fresh_world_def CACHE_NAME_def)
qed

subsection \<open>Activation\<close>

text \<open>
  C4. The activate handler resolves, and the buckets it leaves are those of the storage
  before whose name is \<open>CACHE_NAME\<close>: every other bucket is deleted, so every name that
  remains is \<open>CACHE_NAME\<close>. When the bucket names are distinct and the current bucket
  exists, which the install handler sees to by opening it, exactly that one bucket
  remains.
\<close>

theorem activate_keeps_only_current_bucket:
  "(\<exists>deleted. fst (on_activate w) = Inr deleted)
   \<and> storage (snd (on_activate w)) = filter (\<lambda>(n, c). n = CACHE_NAME) (storage w)
   \<and> (\<forall>n\<in>set (map fst (storage (snd (on_activate w)))). n = CACHE_NAME)
   \<and> (distinct (map fst (storage w)) \<and> CACHE_NAME \<in> set (map fst (storage w)) \<longrightarrow>
        map fst (storage (snd (on_activate w))) = [CACHE_NAME])
   \<and> (distinct (map fst (storage w)) \<longrightarrow>
        map fst (storage (snd (on_activate (snd (on_install net origin w))))) = [CACHE_NAME])"
proof -
  have current: "map fst (storage (snd (on_activate v))) = [CACHE_NAME]"
    if "distinct (map fst (storage v))" "CACHE_NAME \<in> set (map fst (storage v))" for v
    using that by (simp only: activate_names filter_the_name)
  have "distinct (map fst (storage (snd (on_install net origin w))))"
    if "distinct (map fst (storage w))"
    using that by (simp only: install_names distinct_open)
  moreover have "CACHE_NAME \<in> set (map fst (storage (snd (on_install net origin w))))"
    by (simp add: install_names names_open)
  ultimately have lifecycle: "map fst (storage (snd (on_activate (snd (on_install net origin w))))) = [CACHE_NAME]"
    if "distinct (map fst (storage w))"
    using that current by blast
  have "\<forall>n\<in>set (map fst (storage (snd (on_activate w)))). n = CACHE_NAME"
    by (simp add: activate_names)
  with activate_resolves[of w] activate_storage[of w] current[of w] lifecycle
  show ?thesis by blast
qed

theorem activate_keeps_only_current_bucket_witness:
  "distinct (map fst (storage stale_world))
   \<and> map fst (storage stale_world) = [''wedding-invitation-v0.9.0'']
   \<and> map fst (storage (snd (on_activate (snd (on_install all_served site stale_world))))) = [CACHE_NAME]
   \<and> distinct (map fst (storage shell_world))
   \<and> CACHE_NAME \<in> set (map fst (storage shell_world))
   \<and> map fst (storage (snd (on_activate shell_world))) = [CACHE_NAME]"
proof -
  have h1: "distinct (map fst (storage stale_world))"
    and h2: "map fst (storage stale_world) = [''wedding-invitation-v0.9.0'']"
    by (simp_all add: stale_world_def)
  have h3: "distinct (map fst (storage shell_world))"
    and h4: "CACHE_NAME \<in> set (map fst (storage shell_world))"
    by (simp_all add: shell_world_def)
  from activate_keeps_only_current_bucket[of stale_world all_served site]
    activate_keeps_only_current_bucket[of shell_world all_served site] h1 h2 h3 h4
  show ?thesis by blast
qed

subsection \<open>Installation\<close>

text \<open>
  C1, as amended. The install handler swallows every failure of the population: the
  promise it hands to the host resolves whatever the network does, and the current bucket
  exists afterwards. The population itself is one \<^verbatim>\<open>cache.addAll\<close>, which is all or
  nothing: when the response to any manifest request is not an ok one, that install stores
  no entry at all and storage is what opening the bucket leaves; when all are ok, each
  manifest URL is stored with its response.
\<close>

theorem install_swallows_failure_all_or_nothing:
  "fst (on_install net origin w) = Inr ()
   \<and> CACHE_NAME \<in> set (map fst (storage (snd (on_install net origin w))))
   \<and> ((\<exists>u\<in>set urlsToCache. \<not> response_ok (net (new_Request origin u NoCors))) \<longrightarrow>
        storage (snd (on_install net origin w)) = storage_open CACHE_NAME (storage w))
   \<and> ((\<forall>u\<in>set urlsToCache. response_ok (net (new_Request origin u NoCors))) \<longrightarrow>
        (\<forall>u\<in>set urlsToCache.
           Inr (cache_match (storage (snd (on_install net origin w))) CACHE_NAME (resolve_url origin u))
             = net (new_Request origin u NoCors)))"
proof -
  have ok_iff: "all_ok net (manifest_requests origin) \<longleftrightarrow>
      (\<forall>u\<in>set urlsToCache. response_ok (net (new_Request origin u NoCors)))"
    by (simp add: all_ok_def manifest_requests_def list_all_iff)
  have exists: "CACHE_NAME \<in> set (map fst (storage (snd (on_install net origin w))))"
    by (simp add: install_names names_open)
  have none_stored: "storage (snd (on_install net origin w)) = storage_open CACHE_NAME (storage w)"
    if "\<exists>u\<in>set urlsToCache. \<not> response_ok (net (new_Request origin u NoCors))"
  proof -
    from that ok_iff have "\<not> all_ok net (manifest_requests origin)"
      by blast
    then show ?thesis by (simp add: install_storage)
  qed
  have all_stored: "Inr (cache_match (storage (snd (on_install net origin w))) CACHE_NAME (resolve_url origin u))
             = net (new_Request origin u NoCors)"
    if ok: "\<forall>u\<in>set urlsToCache. response_ok (net (new_Request origin u NoCors))"
      and u: "u \<in> set urlsToCache" for u
  proof -
    from ok have a: "all_ok net (manifest_requests origin)"
      by (simp add: ok_iff)
    from u have m: "new_Request origin u NoCors \<in> set (manifest_requests origin)"
      by (simp add: manifest_requests_def)
    from install_stores_manifest[OF a m, of w] show ?thesis
      by (simp add: new_Request_def)
  qed
  show ?thesis
  proof (intro conjI impI ballI)
    show "fst (on_install net origin w) = Inr ()"
      by (rule install_resolves)
    show "CACHE_NAME \<in> set (map fst (storage (snd (on_install net origin w))))"
      by (rule exists)
    show "storage (snd (on_install net origin w)) = storage_open CACHE_NAME (storage w)"
      if "\<exists>u\<in>set urlsToCache. \<not> response_ok (net (new_Request origin u NoCors))"
      by (rule none_stored[OF that])
    show "Inr (cache_match (storage (snd (on_install net origin w))) CACHE_NAME (resolve_url origin u))
             = net (new_Request origin u NoCors)"
      if "\<forall>u\<in>set urlsToCache. response_ok (net (new_Request origin u NoCors))"
        and "u \<in> set urlsToCache" for u
      by (rule all_stored[OF that])
  qed
qed

theorem install_swallows_failure_all_or_nothing_witness:
  "\<not> response_ok (music_offline (new_Request site ''/assets/wedding-music.mp3'' NoCors))
   \<and> fst (on_install music_offline site stale_world) = Inr ()
   \<and> storage (snd (on_install music_offline site stale_world)) =
       storage_open CACHE_NAME (storage stale_world)
   \<and> all_ok all_served (manifest_requests site)
   \<and> cache_match (storage (snd (on_install all_served site stale_world))) CACHE_NAME
        (site @ ''/index.html'') = Some (page (site @ ''/index.html''))"
proof -
  have h0: "\<not> response_ok (music_offline (new_Request site ''/assets/wedding-music.mp3'' NoCors))"
    by (simp add: music_offline_def new_Request_def resolve_url_def response_ok_def)
  moreover have "''/assets/wedding-music.mp3'' \<in> set urlsToCache"
    by (simp add: urlsToCache_def)
  ultimately have h1: "\<exists>u\<in>set urlsToCache. \<not> response_ok (music_offline (new_Request site u NoCors))"
    by blast
  have h2: "\<forall>u\<in>set urlsToCache. response_ok (all_served (new_Request site u NoCors))"
    by (simp add: all_served_def response_ok_def page_def no_headers_no_star)
  from h2 have h4: "all_ok all_served (manifest_requests site)"
    by (simp add: all_ok_def manifest_requests_def list_all_iff)
  have h3: "''/index.html'' \<in> set urlsToCache"
    by (simp add: urlsToCache_def)
  from install_swallows_failure_all_or_nothing[of music_offline site stale_world] h1
  have a: "fst (on_install music_offline site stale_world) = Inr ()"
    and b: "storage (snd (on_install music_offline site stale_world)) =
       storage_open CACHE_NAME (storage stale_world)"
    by blast+
  from install_swallows_failure_all_or_nothing[of all_served site stale_world] h2 h3
  have "Inr (cache_match (storage (snd (on_install all_served site stale_world))) CACHE_NAME
              (resolve_url site ''/index.html''))
        = all_served (new_Request site ''/index.html'' NoCors)"
    by blast
  then have c: "cache_match (storage (snd (on_install all_served site stale_world))) CACHE_NAME
        (site @ ''/index.html'') = Some (page (site @ ''/index.html''))"
    by (simp add: all_served_def new_Request_def resolve_url_def)
  from h0 a b h4 c show ?thesis by blast
qed

text \<open>
  The claim as stated fails. On a network where only the music file cannot be fetched
  among the site's own files, the root document is fetched with an ok response, the
  install succeeds, and the current bucket is left empty: the root document is not stored.
\<close>

theorem install_best_effort_counterexample:
  "\<not> response_ok (music_offline (new_Request site ''/assets/wedding-music.mp3'' NoCors))
   \<and> response_ok (music_offline (new_Request site ''/index.html'' NoCors))
   \<and> fst (on_install music_offline site fresh_world) = Inr ()
   \<and> storage (snd (on_install music_offline site fresh_world)) = [(CACHE_NAME, [])]
   \<and> cache_match (storage (snd (on_install music_offline site fresh_world))) CACHE_NAME
        (site @ ''/index.html'') = None"
proof -
  have bad: "\<not> response_ok (music_offline (new_Request site ''/assets/wedding-music.mp3'' NoCors))"
    by (simp add: music_offline_def new_Request_def resolve_url_def response_ok_def)
  have good: "response_ok (music_offline (new_Request site ''/index.html'' NoCors))"
    by (simp add: music_offline_def new_Request_def resolve_url_def response_ok_def
        startsWith_def page_def site_def no_headers_no_star)
  from bad have "\<not> all_ok music_offline (manifest_requests site)"
    by (simp add: all_ok_def manifest_requests_def urlsToCache_def)
  then have st: "storage (snd (on_install music_offline site fresh_world)) = [(CACHE_NAME, [])]"
    by (simp add: install_storage fresh_world_def storage_open_def)
  have "cache_match [(CACHE_NAME, [])] CACHE_NAME (site @ ''/index.html'') = None"
    by (simp add: cache_match_def)
  with bad good st install_resolves[of music_offline site fresh_world] show ?thesis
    by simp
qed

text \<open>
  C8. Installing when the current bucket already exists and holds entries: the install
  succeeds, the buckets keep their names, and storage stays well formed, so no key has
  two entries. A response fetched by this install replaces the entry of its key, and to
  install once more on the same network changes nothing.
\<close>

theorem install_is_idempotent:
  assumes "wf_storage (storage w)"
    and "CACHE_NAME \<in> set (map fst (storage w))"
  shows "fst (on_install net origin w) = Inr ()
         \<and> map fst (storage (snd (on_install net origin w))) = map fst (storage w)
         \<and> wf_storage (storage (snd (on_install net origin w)))
         \<and> (all_ok net (manifest_requests origin) \<longrightarrow>
              (\<forall>req\<in>set (manifest_requests origin).
                 Inr (cache_match (storage (snd (on_install net origin w))) CACHE_NAME (url req)) = net req))
         \<and> storage (snd (on_install net origin (snd (on_install net origin w)))) =
             storage (snd (on_install net origin w))"
proof -
  have names: "map fst (storage (snd (on_install net origin w))) = map fst (storage w)"
    using open_present[OF assms(2)] by (simp add: install_names)
  have over: "Inr (cache_match (storage (snd (on_install net origin w))) CACHE_NAME (url req)) = net req"
    if "all_ok net (manifest_requests origin)" "req \<in> set (manifest_requests origin)" for req
    using that by (rule install_stores_manifest)
  show ?thesis
  proof (intro conjI impI ballI)
    show "fst (on_install net origin w) = Inr ()"
      by (rule install_resolves)
    show "map fst (storage (snd (on_install net origin w))) = map fst (storage w)"
      by (rule names)
    show "wf_storage (storage (snd (on_install net origin w)))"
      by (rule install_wf[OF assms(1)])
    show "Inr (cache_match (storage (snd (on_install net origin w))) CACHE_NAME (url req)) = net req"
      if "all_ok net (manifest_requests origin)" "req \<in> set (manifest_requests origin)" for req
      by (rule over[OF that])
    show "storage (snd (on_install net origin (snd (on_install net origin w)))) =
             storage (snd (on_install net origin w))"
      by (rule install_twice)
  qed
qed

theorem install_is_idempotent_witness:
  "wf_storage (storage shell_world)
   \<and> CACHE_NAME \<in> set (map fst (storage shell_world))
   \<and> cache_match (storage shell_world) CACHE_NAME (site @ ''/index.html'') = Some (page ''shell'')
   \<and> all_ok all_served (manifest_requests site)
   \<and> fst (on_install all_served site shell_world) = Inr ()
   \<and> wf_storage (storage (snd (on_install all_served site shell_world)))
   \<and> cache_match (storage (snd (on_install all_served site shell_world))) CACHE_NAME
        (site @ ''/index.html'') = Some (page (site @ ''/index.html''))
   \<and> storage (snd (on_install all_served site (snd (on_install all_served site shell_world)))) =
       storage (snd (on_install all_served site shell_world))"
proof -
  have h1: "wf_storage (storage shell_world)"
    by (simp add: shell_world_def wf_storage_def)
  have h2: "CACHE_NAME \<in> set (map fst (storage shell_world))"
    by (simp add: shell_world_def)
  have h3: "cache_match (storage shell_world) CACHE_NAME (site @ ''/index.html'') = Some (page ''shell'')"
    by (simp add: shell_world_def cache_match_def)
  have h4: "all_ok all_served (manifest_requests site)"
    by (simp add: all_ok_def list_all_iff all_served_def response_ok_def page_def no_headers_no_star)
  have h5: "new_Request site ''/index.html'' NoCors \<in> set (manifest_requests site)"
    by (simp add: manifest_requests_def urlsToCache_def)
  from install_is_idempotent[OF h1 h2, of all_served site] h4 h5
  have a: "fst (on_install all_served site shell_world) = Inr ()"
    and b: "wf_storage (storage (snd (on_install all_served site shell_world)))"
    and c: "Inr (cache_match (storage (snd (on_install all_served site shell_world))) CACHE_NAME
                  (url (new_Request site ''/index.html'' NoCors)))
            = all_served (new_Request site ''/index.html'' NoCors)"
    and d: "storage (snd (on_install all_served site (snd (on_install all_served site shell_world)))) =
       storage (snd (on_install all_served site shell_world))"
    by blast+
  from c have c': "cache_match (storage (snd (on_install all_served site shell_world))) CACHE_NAME
        (site @ ''/index.html'') = Some (page (site @ ''/index.html''))"
    by (simp add: all_served_def new_Request_def resolve_url_def)
  from h1 h2 h3 h4 a b c' d show ?thesis by blast
qed

end
